theory Spec2Isabelle
  imports Complex_Main "HOL-Library.Char_ord"
begin

section \<open>KeyQuest: the game session engine of \<^verbatim>\<open>src/App.jsx\<close>\<close>

text \<open>
  The engine is the bundle of React state cells of the \<^verbatim>\<open>App\<close> component together with
  its handlers \<^verbatim>\<open>initializeGame\<close>, \<^verbatim>\<open>moveToNextWord\<close>, \<^verbatim>\<open>handleKeyPress\<close>,
  \<^verbatim>\<open>handleRiddleAnswer\<close>, \<^verbatim>\<open>endGame\<close> and the timer effect. Each handler is embedded as
  a function from the session record to the updated record; the batched \<^verbatim>\<open>setX\<close> calls of
  one handler become record updates applied in the order in which the handler issues them.

  Modelling conventions:
  \<^item> JavaScript numbers that only ever hold integers (score, seconds, counters) are \<open>int\<close>;
    array indices are \<open>nat\<close>.
  \<^item> A key is the JavaScript string handed to \<^verbatim>\<open>handleKeyPress\<close>: a one-character string,
    the string \<^verbatim>\<open>BACKSPACE\<close>, or anything else a caller passes.
  \<^item> \<^verbatim>\<open>Math.random()\<close> is a parameter \<open>r\<close> of the handler that draws it; the library
    guarantees \<open>0 \<le> r < 1\<close>.
  \<^item> The riddle catalog (\<^verbatim>\<open>data/riddles.json\<close>) is a parameter \<open>cat\<close> of every handler.
  \<^item> A handler always sees the state left by the previous event (React re-renders between
    events). The one closure that outlives its render is the \<^verbatim>\<open>moveToNextWord(false)\<close>
    scheduled with \<^verbatim>\<open>setTimeout(..., 500)\<close>; it is kept in \<open>pendingAdvances\<close> together with the
    \<^verbatim>\<open>currentWordIndex\<close> and \<^verbatim>\<open>currentRiddleIndex\<close> it captured, and runs when the event
    \<open>AdvanceTimer\<close> fires it.
  \<^item> The one-second tick exists only while the timer effect has scheduled it (playing, time
    left); the effect's cleanup cancels it on every other state. The riddle modal reports
    one answer each time it is opened, and its two-second result display is not modelled.
  \<^item> Presentation-only cells (\<^verbatim>\<open>pressedKey\<close>, the score-board and save-score modals, the
    locally stored best score) and the sound effects are left out.
\<close>

subsection \<open>Data model\<close>

datatype game_state = MENU | PLAYING | RIDDLE | GAME_OVER

record riddle =
  riddle_id :: nat
  words :: "string list"
  question :: string
  options :: "string list"
  correctAnswer :: nat
  theme :: string

record session =
  gameState :: game_state
  score :: int
  timeLeft :: int
  selectedTime :: int
  currentRiddleIndex :: nat
  currentWordIndex :: nat
  typedText :: string
  wrongKeyCount :: int
  usedRiddleIndices :: "nat list"
  currentRound :: int
  showRiddleModal :: bool
  showGameOver :: bool
  pendingAdvances :: "(nat \<times> nat) list"

text \<open>\<^verbatim>\<open>GAME_CONFIG\<close> of \<^verbatim>\<open>src/constants/texts.js\<close>.\<close>

definition POINTS_PER_WORD :: int where
  "POINTS_PER_WORD = 5"

definition POINTS_PER_RIDDLE :: int where
  "POINTS_PER_RIDDLE = 20"

definition PENALTY_PER_WRONG_WORD :: int where
  "PENALTY_PER_WRONG_WORD = 3"

definition POINTS_PENALTY_WRONG_KEY :: int where
  "POINTS_PENALTY_WRONG_KEY = 3"

definition MAX_WRONG_KEYS_PER_WORD :: int where
  "MAX_WRONG_KEYS_PER_WORD = 2"



text \<open>The \<^verbatim>\<open>useState\<close> initial values of \<^verbatim>\<open>App\<close>.\<close>

definition initialApp :: session where
  "initialApp =
     \<lparr>gameState = MENU, score = 0, timeLeft = 30, selectedTime = 30,
      currentRiddleIndex = 0, currentWordIndex = 0, typedText = [],
      wrongKeyCount = 0, usedRiddleIndices = [], currentRound = 1,
      showRiddleModal = False, showGameOver = False, pendingAdvances = []\<rparr>"

subsection \<open>Derived values of a render\<close>

text \<open>\<^verbatim>\<open>riddlesData.riddles[i]\<close>: \<^verbatim>\<open>undefined\<close> out of range.\<close>

definition riddleAt :: "riddle list \<Rightarrow> nat \<Rightarrow> riddle option" where
  "riddleAt cat i = (if i < length cat then Some (cat ! i) else None)"

definition currentRiddle :: "riddle list \<Rightarrow> session \<Rightarrow> riddle option" where
  "currentRiddle cat s = riddleAt cat (currentRiddleIndex s)"

text \<open>\<^verbatim>\<open>currentRiddle?.words[currentWordIndex]\<close>.\<close>

definition currentWord :: "riddle list \<Rightarrow> session \<Rightarrow> string option" where
  "currentWord cat s =
     (case currentRiddle cat s of
        None \<Rightarrow> None
      | Some rd \<Rightarrow>
          if currentWordIndex s < length (words rd)
          then Some (words rd ! currentWordIndex s) else None)"

text \<open>
  \<^verbatim>\<open>currentRiddle?.words.length\<close>, the number of words of the current set; without a
  current riddle it is \<^verbatim>\<open>undefined\<close>, below which no index lies, modelled as 0.
\<close>

definition wordCount :: "riddle list \<Rightarrow> session \<Rightarrow> nat" where
  "wordCount cat s = (case currentRiddle cat s of None \<Rightarrow> 0 | Some rd \<Rightarrow> length (words rd))"

text \<open>\<^verbatim>\<open>word[i]\<close> on a string: \<^verbatim>\<open>undefined\<close> out of range.\<close>

definition charAt :: "string \<Rightarrow> nat \<Rightarrow> char option" where
  "charAt w i = (if i < length w then Some (w ! i) else None)"

text \<open>\<^verbatim>\<open>Math.floor(Math.random() * n)\<close>.\<close>

definition randomIndex :: "real \<Rightarrow> nat \<Rightarrow> nat" where
  "randomIndex r n = nat \<lfloor>r * real n\<rfloor>"

subsection \<open>Handlers\<close>

definition initializeGame :: "riddle list \<Rightarrow> real \<Rightarrow> session \<Rightarrow> session" where
  "initializeGame cat r s =
     (let firstRiddleIndex = randomIndex r (length cat) in
      s\<lparr>gameState := PLAYING, score := 0, timeLeft := selectedTime s,
        currentRiddleIndex := firstRiddleIndex,
        usedRiddleIndices := [firstRiddleIndex],
        currentWordIndex := 0, typedText := [], wrongKeyCount := 0,
        currentRound := 1, showRiddleModal := False, showGameOver := False\<rparr>)"

definition endGame :: "session \<Rightarrow> session" where
  "endGame s = s\<lparr>gameState := GAME_OVER, showGameOver := True\<rparr>"

text \<open>
  \<^verbatim>\<open>moveToNextWord(wordCompleted)\<close>. The arguments \<open>cwi\<close> and \<open>cri\<close> are the
  \<^verbatim>\<open>currentWordIndex\<close> and \<^verbatim>\<open>currentRiddleIndex\<close> of the render that created the closure;
  the score and the word index themselves are changed by functional updates on the live state.
\<close>

definition moveToNextWord ::
  "riddle list \<Rightarrow> bool \<Rightarrow> nat \<Rightarrow> nat \<Rightarrow> session \<Rightarrow> session" where
  "moveToNextWord cat wordCompleted cwi cri s =
     (case riddleAt cat cri of
        None \<Rightarrow> s
      | Some rd \<Rightarrow>
          (let s1 = (if wordCompleted
                     then s\<lparr>score := score s + POINTS_PER_WORD\<rparr>
                     else s\<lparr>score := max 0 (score s - PENALTY_PER_WRONG_WORD)\<rparr>)
           in if cwi + 1 < length (words rd)
              then s1\<lparr>currentWordIndex := currentWordIndex s1 + 1,
                      typedText := [], wrongKeyCount := 0\<rparr>
              else s1\<lparr>showRiddleModal := True, gameState := RIDDLE\<rparr>))"

text \<open>The guard \<^verbatim>\<open>!currentWord\<close>: no word, or the empty string.\<close>

definition noWord :: "string option \<Rightarrow> bool" where
  "noWord w = (case w of None \<Rightarrow> True | Some x \<Rightarrow> x = [])"

definition handleKeyPress :: "riddle list \<Rightarrow> string \<Rightarrow> session \<Rightarrow> session" where
  "handleKeyPress cat key s =
     (if gameState s \<noteq> PLAYING \<or> noWord (currentWord cat s) \<or> key = [] then s
      else if key = ''BACKSPACE'' then
        (if length (typedText s) > 0
         then s\<lparr>typedText := butlast (typedText s),
                wrongKeyCount := (if wrongKeyCount s > 0
                                  then max 0 (wrongKeyCount s - 1)
                                  else wrongKeyCount s)\<rparr>
         else s)
      else
        (case charAt (the (currentWord cat s)) (length (typedText s)) of
           None \<Rightarrow> s
         | Some targetChar \<Rightarrow>
             if key = [targetChar] then
               (let newTypedText = typedText s @ key;
                    s1 = s\<lparr>typedText := newTypedText\<rparr>
                in if length newTypedText = length (the (currentWord cat s))
                   then moveToNextWord cat True
                          (currentWordIndex s) (currentRiddleIndex s) s1
                   else s1)
             else
               (let newWrongCount = wrongKeyCount s + 1;
                    s1 = s\<lparr>score := max 0 (score s - POINTS_PENALTY_WRONG_KEY),
                           typedText := typedText s @ key,
                           wrongKeyCount := newWrongCount\<rparr>
                in if newWrongCount \<ge> MAX_WRONG_KEYS_PER_WORD
                   then s1\<lparr>pendingAdvances := pendingAdvances s1 @
                             [(currentWordIndex s, currentRiddleIndex s)]\<rparr>
                   else s1)))"

text \<open>The callback of \<^verbatim>\<open>setTimeout(() => moveToNextWord(false), 500)\<close>, oldest first.\<close>

definition fireAdvance :: "riddle list \<Rightarrow> session \<Rightarrow> session" where
  "fireAdvance cat s =
     (case pendingAdvances s of
        [] \<Rightarrow> s
      | (cwi, cri) # rest \<Rightarrow>
          moveToNextWord cat False cwi cri (s\<lparr>pendingAdvances := rest\<rparr>))"

definition availableIndices :: "riddle list \<Rightarrow> nat list \<Rightarrow> nat list" where
  "availableIndices cat used = filter (\<lambda>i. i \<notin> set used) [0..<length cat]"

definition handleRiddleAnswer ::
  "riddle list \<Rightarrow> real \<Rightarrow> bool \<Rightarrow> session \<Rightarrow> session" where
  "handleRiddleAnswer cat r isCorrect s =
     (let s0 = s\<lparr>showRiddleModal := False\<rparr> in
      if isCorrect then
        (let s1 = s0\<lparr>score := score s0 + POINTS_PER_RIDDLE\<rparr> in
         if length (usedRiddleIndices s) < length cat then
           (let avail = availableIndices cat (usedRiddleIndices s) in
            if length avail > 0 then
              (let nextRiddleIndex = avail ! randomIndex r (length avail) in
               s1\<lparr>usedRiddleIndices := usedRiddleIndices s1 @ [nextRiddleIndex],
                  currentRiddleIndex := nextRiddleIndex,
                  currentWordIndex := 0, typedText := [], wrongKeyCount := 0,
                  currentRound := currentRound s1 + 1,
                  gameState := PLAYING,
                  timeLeft := min (timeLeft s1 + 10) 60\<rparr>)
            else endGame s1)
         else endGame s1)
      else endGame s0)"

text \<open>
  The timer effect, re-run after every state change: with time left it only schedules the
  next tick; at zero while playing it ends the game.
\<close>

definition timerEffect :: "session \<Rightarrow> session" where
  "timerEffect s =
     (if gameState s = PLAYING \<and> timeLeft s > 0 then s
      else if timeLeft s = 0 \<and> gameState s = PLAYING then endGame s
      else s)"

subsection \<open>The on-screen and physical keyboard (\<^verbatim>\<open>components/Keyboard.jsx\<close>)\<close>

definition specialKeys :: "string list" where
  "specialKeys =
     [''Shift'', ''Control'', ''Alt'', ''Meta'', ''Tab'', ''CapsLock'', ''Escape'',
      ''F1'', ''F2'', ''F3'', ''F4'', ''F5'', ''F6'', ''F7'', ''F8'', ''F9'', ''F10'',
      ''F11'', ''F12'', ''ArrowUp'', ''ArrowDown'', ''ArrowLeft'', ''ArrowRight'',
      ''Home'', ''End'', ''PageUp'', ''PageDown'', ''Insert'', ''Delete'', ''Enter'',
      '' '']"

text \<open>The regular expression \<^verbatim>\<open>/^[A-Za-z]$/\<close>.\<close>

definition isLetter :: "string \<Rightarrow> bool" where
  "isLetter k =
     (case k of
        [c] \<Rightarrow> (CHR ''A'' \<le> c \<and> c \<le> CHR ''Z'') \<or> (CHR ''a'' \<le> c \<and> c \<le> CHR ''z'')
      | _ \<Rightarrow> False)"

text \<open>
  \<^verbatim>\<open>handleKeyDown\<close> (physical keyboard) and \<^verbatim>\<open>handleKeyClick\<close> (on-screen button): the
  result is the argument passed to \<^verbatim>\<open>onKeyPress\<close>, if it is called at all.
\<close>

definition handleKeyDown :: "bool \<Rightarrow> string \<Rightarrow> string option" where
  "handleKeyDown disabled k =
     (if disabled then None
      else if k = [] then None
      else if k = ''Backspace'' then Some ''BACKSPACE''
      else if k \<in> set specialKeys then None
      else if isLetter k then Some k
      else None)"

definition handleKeyClick :: "bool \<Rightarrow> string \<Rightarrow> string option" where
  "handleKeyClick disabled k = (if disabled then None else Some k)"

subsection \<open>Events\<close>

text \<open>
  \<open>KeyDown k\<close> is a physical key with \<^verbatim>\<open>event.key = k\<close>; \<open>KeyClick k\<close> is a click on the
  on-screen button that sends \<open>k\<close> (a letter \<^verbatim>\<open>A\<close>..\<^verbatim>\<open>Z\<close>, \<^verbatim>\<open>BACKSPACE\<close>, or the space
  of the SPACE button). \<open>Answer i r\<close> selects option \<open>i\<close> of the riddle modal, \<open>r\<close> being the
  random number drawn for the next riddle. \<open>Tick\<close> is the one-second timer callback,
  \<open>AdvanceTimer\<close> the 500 ms callback of the oldest pending word skip.
\<close>

datatype event =
    SelectTime int
  | Start real
  | KeyDown string
  | KeyClick string
  | Answer nat real
  | Tick
  | AdvanceTimer
  | BackToMenu

definition viaKeyboard :: "riddle list \<Rightarrow> string option \<Rightarrow> session \<Rightarrow> session" where
  "viaKeyboard cat k s = (case k of None \<Rightarrow> s | Some key \<Rightarrow> handleKeyPress cat key s)"

text \<open>
  What is mounted decides which handler an event reaches: the start button and the duration
  buttons exist in \<^verbatim>\<open>MENU\<close> only, the \<^verbatim>\<open>Keyboard\<close> component (and its \<^verbatim>\<open>keydown\<close>
  listener) in \<^verbatim>\<open>PLAYING\<close> only, the riddle modal while \<^verbatim>\<open>showRiddleModal\<close> holds and a
  riddle exists, the game-over buttons while \<^verbatim>\<open>showGameOver\<close> holds. The tick is scheduled
  only while playing with time left and is cancelled by the effect's cleanup otherwise.
\<close>

definition dispatch :: "riddle list \<Rightarrow> session \<Rightarrow> event \<Rightarrow> session" where
  "dispatch cat s e =
     (case e of
        SelectTime t \<Rightarrow>
          if gameState s = MENU \<and> t \<in> set [30, 45, 60] then s\<lparr>selectedTime := t\<rparr> else s
      | Start r \<Rightarrow> if gameState s = MENU then initializeGame cat r s else s
      | KeyDown k \<Rightarrow>
          if gameState s = PLAYING
          then viaKeyboard cat (handleKeyDown (gameState s \<noteq> PLAYING) k) s else s
      | KeyClick k \<Rightarrow>
          if gameState s = PLAYING
          then viaKeyboard cat (handleKeyClick (gameState s \<noteq> PLAYING) k) s else s
      | Answer i r \<Rightarrow>
          if showRiddleModal s then
            (case currentRiddle cat s of
               None \<Rightarrow> s
             | Some rd \<Rightarrow> handleRiddleAnswer cat r (i = correctAnswer rd) s)
          else s
      | Tick \<Rightarrow>
          if gameState s = PLAYING \<and> timeLeft s > 0
          then s\<lparr>timeLeft := timeLeft s - 1\<rparr> else s
      | AdvanceTimer \<Rightarrow> fireAdvance cat s
      | BackToMenu \<Rightarrow>
          if showGameOver s then s\<lparr>showGameOver := False, gameState := MENU\<rparr> else s)"

definition step :: "riddle list \<Rightarrow> session \<Rightarrow> event \<Rightarrow> session" where
  "step cat s e = timerEffect (dispatch cat s e)"

fun run :: "riddle list \<Rightarrow> session \<Rightarrow> event list \<Rightarrow> session" where
  "run cat s [] = s"
| "run cat s (e # es) = run cat (step cat s e) es"

text \<open>Keys handed to \<^verbatim>\<open>handleKeyPress\<close> one after the other.\<close>

fun typeKeys :: "riddle list \<Rightarrow> session \<Rightarrow> string list \<Rightarrow> session" where
  "typeKeys cat s [] = s"
| "typeKeys cat s (k # ks) = typeKeys cat (handleKeyPress cat k s) ks"

subsection \<open>Vocabulary of the properties\<close>

text \<open>\<^verbatim>\<open>Math.random()\<close> returns a number in the half-open unit interval.\<close>

definition validRandom :: "real \<Rightarrow> bool" where
  "validRandom r = (0 \<le> r \<and> r < 1)"



fun isTickOrKey :: "event \<Rightarrow> bool" where
  "isTickOrKey Tick = True"
| "isTickOrKey (KeyDown k) = True"
| "isTickOrKey (KeyClick k) = True"
| "isTickOrKey e = False"

text \<open>The one-character key strings for the characters of a word.\<close>

definition keysOf :: "string \<Rightarrow> string list" where
  "keysOf w = map (\<lambda>c. [c]) w"

text \<open>
  Catalogs for concrete runs: the one-set catalog of the example scenario (words
  \<^verbatim>\<open>CAT\<close>, \<^verbatim>\<open>DOG\<close>, correct answer 1), a two-set catalog, and a one-set catalog with four
  words (the shape of the shipped data).
\<close>

definition catDog :: riddle where
  "catDog = \<lparr>riddle_id = 1, words = [''CAT'', ''DOG''], question = ''Q'',
             options = [''A'', ''B''], correctAnswer = 1, theme = ''animals''\<rparr>"

definition sunMap :: riddle where
  "sunMap = \<lparr>riddle_id = 2, words = [''SUN'', ''MAP''], question = ''Q'',
             options = [''A'', ''B''], correctAnswer = 0, theme = ''travel''\<rparr>"

definition fourWords :: riddle where
  "fourWords = \<lparr>riddle_id = 1, words = [''CAT'', ''DOG'', ''SUN'', ''MAP''],
                question = ''Q'', options = [''A'', ''B'', ''C'', ''D''],
                correctAnswer = 1, theme = ''mixed''\<rparr>"

definition oneSetCatalog :: "riddle list" where
  "oneSetCatalog = [catDog]"

definition twoSetCatalog :: "riddle list" where
  "twoSetCatalog = [catDog, sunMap]"

definition fourWordCatalog :: "riddle list" where
  "fourWordCatalog = [fourWords]"

text \<open>
  States of concrete runs. With \<open>oneSetCatalog\<close>: \<open>atDog\<close> after the first word has been
  typed, \<open>atRiddle\<close> after the second, \<open>finished\<close> after the correct answer. With
  \<open>fourWordCatalog\<close>: \<open>atSun\<close> at the start of the third word with two words completed,
  \<open>twoWrong\<close> after two wrong keys on it (one word skip pending), \<open>threeWrong\<close> after a
  further wrong key, \<open>pastTheEnd\<close> after both pending skips have run.
\<close>

definition atDog :: session where
  "atDog = initialApp\<lparr>gameState := PLAYING, usedRiddleIndices := [0],
      currentWordIndex := 1, score := 5\<rparr>"

definition atRiddle :: session where
  "atRiddle = atDog\<lparr>score := 10, typedText := ''DOG'', showRiddleModal := True,
      gameState := RIDDLE\<rparr>"

definition finished :: session where
  "finished = atRiddle\<lparr>showRiddleModal := False, score := 30,
      gameState := GAME_OVER, showGameOver := True\<rparr>"

definition atSun :: session where
  "atSun = initialApp\<lparr>gameState := PLAYING, usedRiddleIndices := [0],
      currentWordIndex := 2, score := 10\<rparr>"

definition twoWrong :: session where
  "twoWrong = atSun\<lparr>score := 4, typedText := ''XY'', wrongKeyCount := 2,
      pendingAdvances := [(2, 0)]\<rparr>"

definition threeWrong :: session where
  "threeWrong = atSun\<lparr>score := 1, typedText := ''XYZ'', wrongKeyCount := 3,
      pendingAdvances := [(2, 0), (2, 0)]\<rparr>"

definition pastTheEnd :: session where
  "pastTheEnd = atSun\<lparr>score := 0, currentWordIndex := 4\<rparr>"


definition bufferOk :: "riddle list \<Rightarrow> session \<Rightarrow> bool" where
  "bufferOk cat s =
     (0 \<le> wrongKeyCount s \<and> (typedText s = [] \<or> \<not> noWord (currentWord cat s)))"

text \<open>The word at given indices, as \<open>currentWord\<close> reads it from the session.\<close>

definition wordAt :: "riddle list \<Rightarrow> nat \<Rightarrow> nat \<Rightarrow> string option" where
  "wordAt cat cri cwi =
     (case riddleAt cat cri of
        None \<Rightarrow> None
      | Some rd \<Rightarrow> if cwi < length (words rd) then Some (words rd ! cwi) else None)"

text \<open>
  More states of concrete runs: \<open>oneWrong\<close> after one wrong key on the first word of the
  one-set catalog, \<open>riddleOfTwo\<close> at the first riddle of the two-set catalog.
\<close>

definition oneWrong :: session where
  "oneWrong = initialApp\<lparr>gameState := PLAYING, usedRiddleIndices := [0],
      typedText := ''X'', wrongKeyCount := 1\<rparr>"

definition riddleOfTwo :: session where
  "riddleOfTwo = initialApp\<lparr>gameState := RIDDLE, usedRiddleIndices := [0],
      currentWordIndex := 1, score := 10, typedText := ''DOG'', showRiddleModal := True\<rparr>"

text \<open>
  States of runs on the two-set catalog. \<open>round2\<close>: the second round has just begun after
  a correct answer. \<open>atMapStale\<close>: three wrong keys were typed on its first word and the
  first of the two scheduled skips has run, so the last word \<^verbatim>\<open>MAP\<close> begins while the
  second skip is still pending. \<open>pastMap\<close>: two wrong keys on \<^verbatim>\<open>MAP\<close> and the next timer
  callback later. \<open>overPending\<close>: the clock ran out on the last word of the first round
  right after two wrong keys, with their skip still pending. \<open>revived\<close>: that skip and a
  correct answer later.
\<close>

definition round2 :: session where
  "round2 = initialApp\<lparr>gameState := PLAYING, usedRiddleIndices := [0, 1],
      currentRiddleIndex := 1, score := 30, currentRound := 2, timeLeft := 40\<rparr>"

definition atMapStale :: session where
  "atMapStale = round2\<lparr>score := 18, currentWordIndex := 1, pendingAdvances := [(0, 1)]\<rparr>"

definition pastMap :: session where
  "pastMap = round2\<lparr>score := 9, currentWordIndex := 2, pendingAdvances := [(1, 1)]\<rparr>"

definition overPending :: session where
  "overPending = atDog\<lparr>timeLeft := 0, score := 0, typedText := ''XY'', wrongKeyCount := 2,
      pendingAdvances := [(1, 0)], gameState := GAME_OVER, showGameOver := True\<rparr>"

definition revived :: session where
  "revived = round2\<lparr>score := 20, timeLeft := 10, showGameOver := True\<rparr>"

section \<open>Properties\<close>

subsection \<open>Score\<close>

lemmas config_defs =
  POINTS_PER_WORD_def POINTS_PER_RIDDLE_def PENALTY_PER_WRONG_WORD_def
  POINTS_PENALTY_WRONG_KEY_def MAX_WRONG_KEYS_PER_WORD_def

lemmas engine_defs =
  step_def dispatch_def timerEffect_def viaKeyboard_def handleKeyClick_def handleKeyDown_def
  handleKeyPress_def moveToNextWord_def handleRiddleAnswer_def fireAdvance_def endGame_def
  initializeGame_def availableIndices_def randomIndex_def
  currentWord_def currentRiddle_def riddleAt_def charAt_def noWord_def
  specialKeys_def isLetter_def initialApp_def config_defs Let_def

lemmas catalog_defs =
  oneSetCatalog_def twoSetCatalog_def fourWordCatalog_def catDog_def sunMap_def fourWords_def

lemma run_append: "run cat s (xs @ ys) = run cat (run cat s xs) ys"
  by (induction xs arbitrary: s) simp_all

lemma score_endGame [simp]: "score (endGame s) = score s"
  by (simp add: endGame_def)

lemma score_timerEffect [simp]: "score (timerEffect s) = score s"
  by (simp add: timerEffect_def)

lemma score_moveToNextWord:
  "score (moveToNextWord cat b cwi cri s) =
     (case riddleAt cat cri of
        None \<Rightarrow> score s
      | Some rd \<Rightarrow> if b then score s + POINTS_PER_WORD
                   else max 0 (score s - PENALTY_PER_WRONG_WORD))"
  by (simp add: moveToNextWord_def Let_def split: option.splits)

text \<open>The score changes a single handler can make.\<close>

lemma score_handleKeyPress:
  "score (handleKeyPress cat key s) = score s
   \<or> score (handleKeyPress cat key s) = score s + POINTS_PER_WORD
   \<or> score (handleKeyPress cat key s) = max 0 (score s - POINTS_PENALTY_WRONG_KEY)"
  by (simp add: handleKeyPress_def Let_def score_moveToNextWord split: option.splits)

lemma score_viaKeyboard:
  "score (viaKeyboard cat k s) = score s
   \<or> score (viaKeyboard cat k s) = score s + POINTS_PER_WORD
   \<or> score (viaKeyboard cat k s) = max 0 (score s - POINTS_PENALTY_WRONG_KEY)"
  using score_handleKeyPress [of cat _ s]
  by (cases k) (simp_all add: viaKeyboard_def)

lemma score_handleRiddleAnswer:
  "score (handleRiddleAnswer cat r b s) = score s
   \<or> score (handleRiddleAnswer cat r b s) = score s + POINTS_PER_RIDDLE"
  by (simp add: handleRiddleAnswer_def Let_def)

lemma score_fireAdvance:
  "score (fireAdvance cat s) = score s
   \<or> score (fireAdvance cat s) = max 0 (score s - PENALTY_PER_WRONG_WORD)"
  by (simp add: fireAdvance_def score_moveToNextWord
      split: list.splits option.splits prod.splits)

lemma score_step:
  "(\<exists>r. e = Start r \<and> score (step cat s e) = 0)
   \<or> score (step cat s e) = score s
   \<or> score (step cat s e) = score s + POINTS_PER_WORD
   \<or> score (step cat s e) = score s + POINTS_PER_RIDDLE
   \<or> score (step cat s e) = max 0 (score s - POINTS_PENALTY_WRONG_KEY)
   \<or> score (step cat s e) = max 0 (score s - PENALTY_PER_WRONG_WORD)"
proof (cases e)
  case (Start r)
  then show ?thesis
    by (simp add: step_def dispatch_def initializeGame_def Let_def)
next
  case (KeyDown k)
  then show ?thesis
    using score_viaKeyboard [of cat "handleKeyDown (gameState s \<noteq> PLAYING) k" s]
    by (auto simp add: step_def dispatch_def)
next
  case (KeyClick k)
  then show ?thesis
    using score_viaKeyboard [of cat "handleKeyClick (gameState s \<noteq> PLAYING) k" s]
    by (auto simp add: step_def dispatch_def)
next
  case (Answer i r)
  then show ?thesis
    using score_handleRiddleAnswer [of cat r _ s]
    by (auto simp add: step_def dispatch_def split: option.splits)
next
  case AdvanceTimer
  then show ?thesis
    using score_fireAdvance [of cat s]
    by (auto simp add: step_def dispatch_def)
qed (simp_all add: step_def dispatch_def)

lemma score_step_nonneg: "0 \<le> score s \<Longrightarrow> 0 \<le> score (step cat s e)"
  using score_step [of e cat s] by (auto simp: config_defs)

lemma score_run_nonneg: "0 \<le> score s \<Longrightarrow> 0 \<le> score (run cat s es)"
  by (induction es arbitrary: s) (simp_all add: score_step_nonneg)

text \<open>
  Claim C1. Whatever events follow the start of a session (keys, backspaces, riddle
  answers, ticks, delayed word skips, even a return to the menu and a new start), the score
  is at least 0 after each of them: after the first \<open>n\<close> events, for every \<open>n\<close>. Moreover a
  single event changes the score in one of the following ways only: it resets it to 0 (a
  start), leaves it, adds \<open>POINTS_PER_WORD\<close> or \<open>POINTS_PER_RIDDLE\<close>, or replaces it by
  \<open>max 0 (score - penalty)\<close> for the wrong-key or the wrong-word penalty.
\<close>

theorem C1_score_never_negative:
  "0 \<le> score (run cat (initializeGame cat r s0) (take n evs))
   \<and> ((\<exists>r'. e = Start r' \<and> score (step cat s e) = 0)
      \<or> score (step cat s e) = score s
      \<or> score (step cat s e) = score s + POINTS_PER_WORD
      \<or> score (step cat s e) = score s + POINTS_PER_RIDDLE
      \<or> score (step cat s e) = max 0 (score s - POINTS_PENALTY_WRONG_KEY)
      \<or> score (step cat s e) = max 0 (score s - PENALTY_PER_WRONG_WORD))"
proof
  have "0 \<le> score (initializeGame cat r s0)"
    by (simp add: initializeGame_def Let_def)
  then show "0 \<le> score (run cat (initializeGame cat r s0) (take n evs))"
    by (rule score_run_nonneg)
next
  show "(\<exists>r'. e = Start r' \<and> score (step cat s e) = 0)
      \<or> score (step cat s e) = score s
      \<or> score (step cat s e) = score s + POINTS_PER_WORD
      \<or> score (step cat s e) = score s + POINTS_PER_RIDDLE
      \<or> score (step cat s e) = max 0 (score s - POINTS_PENALTY_WRONG_KEY)
      \<or> score (step cat s e) = max 0 (score s - PENALTY_PER_WRONG_WORD)"
    by (rule score_step)
qed

theorem C1_score_never_negative_witness:
  "0 \<le> score (run oneSetCatalog (initializeGame oneSetCatalog 0 initialApp)
          (take 2 [KeyClick ''X'', KeyClick ''Y'', Tick]))"
  by (rule C1_score_never_negative [THEN conjunct1])

subsection \<open>Keys that are not letters\<close>

lemma run_atDog:
  "run oneSetCatalog (initialApp\<lparr>gameState := PLAYING, usedRiddleIndices := [0]\<rparr>)
     (map KeyDown (keysOf ''CAT'')) = atDog"
  by (simp add: atDog_def keysOf_def engine_defs catalog_defs)

lemma randomIndex_one: "validRandom r \<Longrightarrow> randomIndex r (Suc 0) = 0"
  by (simp add: randomIndex_def validRandom_def)

lemma start_oneSet:
  "validRandom r \<Longrightarrow>
   step oneSetCatalog (step oneSetCatalog initialApp (SelectTime 30)) (Start r) =
     initialApp\<lparr>gameState := PLAYING, usedRiddleIndices := [0]\<rparr>"
  by (simp add: step_def dispatch_def timerEffect_def initializeGame_def Let_def
      randomIndex_one oneSetCatalog_def initialApp_def)

lemma run_start_atDog:
  "validRandom r \<Longrightarrow>
   run oneSetCatalog initialApp ([SelectTime 30, Start r] @ map KeyDown (keysOf ''CAT''))
     = atDog"
  using start_oneSet [of r] run_atDog by (simp del: One_nat_def)

lemma space_click:
  "step oneSetCatalog atDog (KeyClick '' '')
     = atDog\<lparr>score := 2, typedText := '' '', wrongKeyCount := 1\<rparr>"
  by (simp add: atDog_def engine_defs catalog_defs)

lemma space_down: "step oneSetCatalog atDog (KeyDown '' '') = atDog"
  by (simp add: atDog_def engine_defs catalog_defs)

text \<open>
  Claim C2, at a concrete input. One word of the one-set catalog has been typed: the state
  is \<open>atDog\<close>, playing, with score 5, an empty buffer and no wrong key. A click on the
  on-screen SPACE button sends the space character to \<^verbatim>\<open>handleKeyPress\<close>, which treats it
  as a wrong key: the score drops to 2, the space is appended to the buffer and the wrong-key
  count becomes 1. The same character from the physical keyboard is filtered out by
  \<^verbatim>\<open>handleKeyDown\<close> and changes nothing.
\<close>

theorem C2_space_button_is_a_wrong_key:
  "run oneSetCatalog initialApp ([SelectTime 30, Start 0] @ map KeyDown (keysOf ''CAT''))
     = atDog
   \<and> gameState atDog = PLAYING \<and> score atDog = 5
   \<and> typedText atDog = [] \<and> wrongKeyCount atDog = 0
   \<and> step oneSetCatalog atDog (KeyClick '' '')
        = atDog\<lparr>score := 2, typedText := '' '', wrongKeyCount := 1\<rparr>
   \<and> step oneSetCatalog atDog (KeyDown '' '') = atDog"
  using run_start_atDog [of 0] space_click space_down
  by (simp add: validRandom_def atDog_def initialApp_def)

theorem C2_space_button_is_a_wrong_key_witness:
  "score (step oneSetCatalog atDog (KeyClick '' '')) = 2"
  using C2_space_button_is_a_wrong_key by simp

subsection \<open>The pause before a skipped word is left\<close>

lemma run_atSun:
  "run fourWordCatalog initialApp (Start 0 # map KeyDown (keysOf ''CATDOG'')) = atSun"
  by (simp add: atSun_def keysOf_def engine_defs catalog_defs)

lemma run_twoWrong:
  "run fourWordCatalog atSun [KeyClick ''X'', KeyClick ''Y''] = twoWrong"
  by (simp add: twoWrong_def atSun_def engine_defs catalog_defs)

lemma step_threeWrong:
  "step fourWordCatalog twoWrong (KeyClick ''Z'') = threeWrong"
  by (simp add: threeWrong_def twoWrong_def atSun_def engine_defs catalog_defs)

lemma run_pastTheEnd:
  "run fourWordCatalog threeWrong [AdvanceTimer, AdvanceTimer] = pastTheEnd"
  by (simp add: pastTheEnd_def threeWrong_def atSun_def engine_defs catalog_defs)

lemma pastTheEnd_noWord: "currentWord fourWordCatalog pastTheEnd = None"
  by (simp add: pastTheEnd_def atSun_def engine_defs catalog_defs)

lemma pastTheEnd_stuck: "step fourWordCatalog pastTheEnd (KeyDown ''M'') = pastTheEnd"
  by (simp add: pastTheEnd_def atSun_def engine_defs catalog_defs)

lemma single_advance:
  "step fourWordCatalog twoWrong AdvanceTimer = atSun\<lparr>score := 1, currentWordIndex := 3\<rparr>"
  by (simp add: twoWrong_def atSun_def engine_defs catalog_defs)

text \<open>
  A pending skip is not cancelled by the end of the game either: on the last word of the
  one-set catalog with one second left, two wrong keys, the last tick (game over) and then
  the delayed skip leave the session in \<^verbatim>\<open>RIDDLE\<close> with the riddle modal open.
\<close>

lemma pending_skip_after_game_over:
  "run oneSetCatalog (atDog\<lparr>timeLeft := 1\<rparr>) [KeyClick ''X'', KeyClick ''Y'', Tick]
     = atDog\<lparr>timeLeft := 0, score := 0, typedText := ''XY'', wrongKeyCount := 2,
             pendingAdvances := [(1, 0)], gameState := GAME_OVER, showGameOver := True\<rparr>
   \<and> gameState (run oneSetCatalog (atDog\<lparr>timeLeft := 1\<rparr>)
        [KeyClick ''X'', KeyClick ''Y'', Tick, AdvanceTimer]) = RIDDLE"
  by (simp add: atDog_def engine_defs catalog_defs)

text \<open>
  Claim C3, at a concrete input. With the four-word set, two words are completed (score 10)
  and two wrong keys are typed on the third word: the state is \<open>twoWrong\<close> (score 4, buffer
  \<^verbatim>\<open>XY\<close>, wrong-key count 2) and one word skip is pending. Left alone, the pending skip
  moves to the fourth word with score 1. A third wrong key typed before the skip runs is
  processed against the same word: the score drops to 1, the buffer grows to \<^verbatim>\<open>XYZ\<close> and a
  second skip is scheduled (\<open>threeWrong\<close>). When both skips have run, the word index is 4,
  past the last word of the set, the state is still \<^verbatim>\<open>PLAYING\<close>, there is no current word
  and every further key is ignored.
\<close>

theorem C3_key_during_pause_is_processed:
  "run fourWordCatalog initialApp
     (Start 0 # map KeyDown (keysOf ''CATDOG'') @ [KeyClick ''X'', KeyClick ''Y'']) = twoWrong
   \<and> step fourWordCatalog twoWrong AdvanceTimer = atSun\<lparr>score := 1, currentWordIndex := 3\<rparr>
   \<and> step fourWordCatalog twoWrong (KeyClick ''Z'') = threeWrong
   \<and> score twoWrong = 4 \<and> score threeWrong = 1
   \<and> typedText twoWrong = ''XY'' \<and> typedText threeWrong = ''XYZ''
   \<and> pendingAdvances twoWrong = [(2, 0)] \<and> pendingAdvances threeWrong = [(2, 0), (2, 0)]
   \<and> run fourWordCatalog threeWrong [AdvanceTimer, AdvanceTimer] = pastTheEnd
   \<and> gameState pastTheEnd = PLAYING \<and> currentWordIndex pastTheEnd = 4
   \<and> currentWord fourWordCatalog pastTheEnd = None
   \<and> step fourWordCatalog pastTheEnd (KeyDown ''M'') = pastTheEnd"
proof -
  have "run fourWordCatalog initialApp
     (Start 0 # map KeyDown (keysOf ''CATDOG'') @ [KeyClick ''X'', KeyClick ''Y'']) = twoWrong"
    using run_append [of fourWordCatalog initialApp "Start 0 # map KeyDown (keysOf ''CATDOG'')"
        "[KeyClick ''X'', KeyClick ''Y'']"]
    by (simp only: append_Cons run_atSun run_twoWrong)
  then show ?thesis
    using single_advance step_threeWrong run_pastTheEnd pastTheEnd_noWord pastTheEnd_stuck
    by (simp add: twoWrong_def threeWrong_def pastTheEnd_def atSun_def)
qed

theorem C3_key_during_pause_is_processed_witness:
  "currentWordIndex (run fourWordCatalog threeWrong [AdvanceTimer, AdvanceTimer]) = 4"
  using C3_key_during_pause_is_processed by simp

subsection \<open>Game over\<close>

lemma step_game_over:
  "gameState s = GAME_OVER \<Longrightarrow> isTickOrKey e \<Longrightarrow> step cat s e = s"
  by (cases e) (simp_all add: step_def dispatch_def timerEffect_def)

lemma run_game_over:
  "gameState s = GAME_OVER \<Longrightarrow> list_all isTickOrKey es \<Longrightarrow> run cat s es = s"
  by (induction es) (simp_all add: step_game_over)

lemma step_not_playing_at_zero:
  "\<not> (gameState (step cat s e) = PLAYING \<and> timeLeft (step cat s e) = 0)"
  by (auto simp add: step_def timerEffect_def endGame_def)

lemma tick_last_second:
  "gameState s = PLAYING \<Longrightarrow> timeLeft s = 1 \<Longrightarrow>
   step cat s Tick = s\<lparr>timeLeft := 0, gameState := GAME_OVER, showGameOver := True\<rparr>"
  by (simp add: step_def dispatch_def timerEffect_def endGame_def)

text \<open>
  Ticks and keys alone do not change a finished game: the tick from 1 to 0 while playing ends
  the game, no event leaves the session playing with the clock at 0, and in \<^verbatim>\<open>GAME_OVER\<close>
  any sequence of ticks and key events leaves the whole session record as it is.
\<close>

lemma game_over_ignores_ticks_and_keys:
  "(gameState s = PLAYING \<and> timeLeft s = 1 \<longrightarrow>
      step cat s Tick = s\<lparr>timeLeft := 0, gameState := GAME_OVER, showGameOver := True\<rparr>)
   \<and> \<not> (gameState (step cat s' e) = PLAYING \<and> timeLeft (step cat s' e) = 0)
   \<and> (gameState g = GAME_OVER \<and> list_all isTickOrKey es \<longrightarrow> run cat g es = g)"
  using tick_last_second [of s cat] step_not_playing_at_zero [of cat s' e]
    run_game_over [of g es cat] by blast

lemma run_ticks:
  "gameState s = PLAYING \<Longrightarrow> int n < timeLeft s \<Longrightarrow>
   run cat s (replicate n Tick) = s\<lparr>timeLeft := timeLeft s - int n\<rparr>"
proof (induction n arbitrary: s)
  case 0
  then show ?case by simp
next
  case (Suc n)
  have "step cat s Tick = s\<lparr>timeLeft := timeLeft s - 1\<rparr>"
    using Suc.prems by (simp add: step_def dispatch_def timerEffect_def)
  moreover have "run cat (s\<lparr>timeLeft := timeLeft s - 1\<rparr>) (replicate n Tick) =
      s\<lparr>timeLeft := timeLeft s - 1\<rparr>\<lparr>timeLeft := timeLeft (s\<lparr>timeLeft := timeLeft s - 1\<rparr>) - int n\<rparr>"
    using Suc.prems by (intro Suc.IH) simp_all
  ultimately show ?case by simp
qed

lemma run_start_atDog2:
  "run twoSetCatalog initialApp (Start 0 # map KeyDown (keysOf ''CAT'')) = atDog"
  by (simp add: atDog_def keysOf_def engine_defs catalog_defs)

lemma run_29_ticks:
  "run twoSetCatalog atDog (replicate 29 Tick) = atDog\<lparr>timeLeft := 1\<rparr>"
  using run_ticks [of atDog 29 twoSetCatalog] by (simp add: atDog_def initialApp_def)

lemma run_overPending:
  "run twoSetCatalog (atDog\<lparr>timeLeft := 1\<rparr>) [KeyClick ''X'', KeyClick ''Y'', Tick]
     = overPending"
  by (simp add: overPending_def atDog_def engine_defs catalog_defs)

lemma run_revived:
  "run twoSetCatalog overPending [AdvanceTimer, Answer 1 0] = revived"
  by (simp add: revived_def round2_def overPending_def atDog_def engine_defs catalog_defs)

lemma step_revived_key:
  "step twoSetCatalog revived (KeyDown ''S'') = revived\<lparr>typedText := ''S''\<rparr>"
  by (simp add: revived_def round2_def engine_defs catalog_defs)

lemma step_revived_tick:
  "step twoSetCatalog revived Tick = revived\<lparr>timeLeft := 9\<rparr>"
  by (simp add: revived_def round2_def engine_defs catalog_defs)

text \<open>
  Claim C7, at a concrete input. On the two-set catalog the first word is typed, 29 ticks
  pass, and two wrong keys are typed on the last word of the set with one second left; the
  next tick takes the clock to 0 and the state to \<^verbatim>\<open>GAME_OVER\<close> (\<open>overPending\<close>), as the
  claim says. The skip scheduled by the second wrong key is still pending, and neither
  \<^verbatim>\<open>endGame\<close> nor \<^verbatim>\<open>moveToNextWord\<close> looks at it or at the state: when it runs, the
  session leaves \<^verbatim>\<open>GAME_OVER\<close> for \<^verbatim>\<open>RIDDLE\<close>, and a correct answer puts it back into
  \<^verbatim>\<open>PLAYING\<close> with 10 seconds and score 20 (\<open>revived\<close>). From then on a key changes the
  buffer and a tick changes the clock, although \<^verbatim>\<open>GAME_OVER\<close> had been entered.
\<close>

theorem C7_game_over_is_left_again:
  "run twoSetCatalog initialApp
     ((Start 0 # map KeyDown (keysOf ''CAT'')) @ replicate 29 Tick @
      [KeyClick ''X'', KeyClick ''Y'', Tick]) = overPending
   \<and> gameState overPending = GAME_OVER \<and> timeLeft overPending = 0
   \<and> run twoSetCatalog overPending [AdvanceTimer, Answer 1 0] = revived
   \<and> gameState revived = PLAYING \<and> timeLeft revived = 10 \<and> score revived = 20
   \<and> step twoSetCatalog revived (KeyDown ''S'') = revived\<lparr>typedText := ''S''\<rparr>
   \<and> step twoSetCatalog revived Tick = revived\<lparr>timeLeft := 9\<rparr>"
proof -
  have "run twoSetCatalog initialApp
     ((Start 0 # map KeyDown (keysOf ''CAT'')) @ replicate 29 Tick @
      [KeyClick ''X'', KeyClick ''Y'', Tick]) = overPending"
    by (simp only: run_append run_start_atDog2 run_29_ticks run_overPending)
  moreover have "gameState overPending = GAME_OVER" "timeLeft overPending = 0"
    by (simp_all add: overPending_def)
  moreover have "gameState revived = PLAYING" "timeLeft revived = 10" "score revived = 20"
    by (simp_all add: revived_def round2_def)
  ultimately show ?thesis
    using run_revived step_revived_key step_revived_tick by blast
qed

theorem C7_game_over_is_left_again_witness:
  "timeLeft (step twoSetCatalog revived Tick) = 9"
proof -
  from C7_game_over_is_left_again
  have "step twoSetCatalog revived Tick = revived\<lparr>timeLeft := 9\<rparr>"
    by blast
  then show ?thesis by simp
qed

subsection \<open>Riddle answers\<close>

lemma availableIndices_exhausted:
  "\<forall>i<length cat. i \<in> set used \<Longrightarrow> availableIndices cat used = []"
  by (simp add: availableIndices_def filter_empty_conv)

lemma correct_answer_exhausted:
  "\<forall>i<length cat. i \<in> set (usedRiddleIndices s) \<Longrightarrow>
   handleRiddleAnswer cat r True s =
     s\<lparr>showRiddleModal := False, score := score s + POINTS_PER_RIDDLE,
       gameState := GAME_OVER, showGameOver := True\<rparr>"
  by (simp add: handleRiddleAnswer_def Let_def endGame_def availableIndices_exhausted)

lemma run_atRiddle:
  "run oneSetCatalog atDog (map KeyDown (keysOf ''DOG'')) = atRiddle"
  by (simp add: atRiddle_def atDog_def keysOf_def engine_defs catalog_defs)

lemma step_finished:
  "step oneSetCatalog atRiddle (Answer 1 r) = finished"
  by (simp add: finished_def atRiddle_def atDog_def engine_defs catalog_defs)

text \<open>
  Claim C6. When every index of the catalog is already in \<open>usedRiddleIndices\<close>, a correct
  answer closes the riddle modal, adds \<open>POINTS_PER_RIDDLE\<close> to the score and ends the game
  (in the \<^verbatim>\<open>RIDDLE\<close> state in particular). The example scenario with the one-set catalog:
  after the start (whatever number the random source returns) and the word \<^verbatim>\<open>CAT\<close> the
  score is 5; after \<^verbatim>\<open>DOG\<close> it is 10 and the state is \<^verbatim>\<open>RIDDLE\<close>; after answer 1 the state
  is \<^verbatim>\<open>GAME_OVER\<close> and the score is 30.
\<close>

theorem C6_exhausted_catalog_ends_game:
  "((\<forall>i<length cat. i \<in> set (usedRiddleIndices s)) \<longrightarrow>
      handleRiddleAnswer cat r True s =
        s\<lparr>showRiddleModal := False, score := score s + POINTS_PER_RIDDLE,
          gameState := GAME_OVER, showGameOver := True\<rparr>)
   \<and> (validRandom r0 \<longrightarrow>
        run oneSetCatalog initialApp
          ([SelectTime 30, Start r0] @ map KeyDown (keysOf ''CAT'')) = atDog
      \<and> gameState atDog = PLAYING \<and> score atDog = 5
      \<and> run oneSetCatalog atDog (map KeyDown (keysOf ''DOG'')) = atRiddle
      \<and> gameState atRiddle = RIDDLE \<and> score atRiddle = 10
      \<and> step oneSetCatalog atRiddle (Answer 1 r1) = finished
      \<and> gameState finished = GAME_OVER \<and> score finished = 30)"
  using correct_answer_exhausted [of cat s r] run_start_atDog [of r0] run_atRiddle
    step_finished [of r1]
  by (simp add: finished_def atRiddle_def atDog_def)

theorem C6_exhausted_catalog_ends_game_witness:
  "handleRiddleAnswer oneSetCatalog 0 True atRiddle = finished
   \<and> run oneSetCatalog initialApp
       ([SelectTime 30, Start 0] @ map KeyDown (keysOf ''CAT'')) = atDog
   \<and> step oneSetCatalog atRiddle (Answer 1 0) = finished"
proof -
  have u: "\<forall>i<length oneSetCatalog. i \<in> set (usedRiddleIndices atRiddle)"
    by (simp add: oneSetCatalog_def atRiddle_def atDog_def)
  have v: "validRandom 0"
    by (simp add: validRandom_def)
  from u v C6_exhausted_catalog_ends_game [of oneSetCatalog atRiddle 0 0 0]
  show ?thesis
    by (simp add: finished_def atRiddle_def atDog_def config_defs)
qed

subsection \<open>Typing a word\<close>

lemma currentWord_SomeD:
  "currentWord cat s = Some w \<Longrightarrow>
   \<exists>rd. riddleAt cat (currentRiddleIndex s) = Some rd
        \<and> currentWordIndex s < length (words rd) \<and> w = words rd ! currentWordIndex s"
  by (auto simp add: currentWord_def currentRiddle_def split: option.splits if_splits)

lemma handleKeyPress_match:
  assumes "gameState s = PLAYING" "currentWord cat s = Some w"
    and "length (typedText s) < length w"
  shows "handleKeyPress cat [w ! length (typedText s)] s =
     (if Suc (length (typedText s)) = length w
      then moveToNextWord cat True (currentWordIndex s) (currentRiddleIndex s)
             (s\<lparr>typedText := typedText s @ [w ! length (typedText s)]\<rparr>)
      else s\<lparr>typedText := typedText s @ [w ! length (typedText s)]\<rparr>)"
  using assms by (auto simp add: handleKeyPress_def noWord_def charAt_def Let_def)

lemma handleKeyPress_mismatch:
  assumes "gameState s = PLAYING" "currentWord cat s = Some w"
    and "length (typedText s) < length w" "c \<noteq> w ! length (typedText s)"
  shows "handleKeyPress cat [c] s =
     (let s1 = s\<lparr>score := max 0 (score s - POINTS_PENALTY_WRONG_KEY),
                 typedText := typedText s @ [c],
                 wrongKeyCount := wrongKeyCount s + 1\<rparr>
      in if wrongKeyCount s + 1 \<ge> MAX_WRONG_KEYS_PER_WORD
         then s1\<lparr>pendingAdvances := pendingAdvances s @
                   [(currentWordIndex s, currentRiddleIndex s)]\<rparr>
         else s1)"
  using assms by (auto simp add: handleKeyPress_def noWord_def charAt_def Let_def)

lemma currentWord_same:
  "currentRiddleIndex s' = currentRiddleIndex s \<Longrightarrow> currentWordIndex s' = currentWordIndex s \<Longrightarrow>
   currentWord cat s' = currentWord cat s"
  by (simp add: currentWord_def currentRiddle_def cong: option.case_cong if_cong)

lemma currentWord_typedText_update [simp]:
  "currentWord cat (s\<lparr>typedText := t\<rparr>) = currentWord cat s"
  by (rule currentWord_same) simp_all

lemma type_rest:
  "gameState s = PLAYING \<Longrightarrow> currentWord cat s = Some w \<Longrightarrow>
   length (typedText s) < length w \<Longrightarrow> n = length w - length (typedText s) \<Longrightarrow>
   typeKeys cat s (keysOf (drop (length (typedText s)) w)) =
     moveToNextWord cat True (currentWordIndex s) (currentRiddleIndex s)
       (s\<lparr>typedText := typedText s @ drop (length (typedText s)) w\<rparr>)"
proof (induction n arbitrary: s)
  case 0
  then show ?case by simp
next
  case (Suc n)
  let ?j = "length (typedText s)"
  let ?s1 = "s\<lparr>typedText := typedText s @ [w ! ?j]\<rparr>"
  have d: "drop ?j w = w ! ?j # drop (Suc ?j) w"
    using Suc.prems(3) by (simp add: Cons_nth_drop_Suc)
  show ?case
  proof (cases "Suc ?j = length w")
    case True
    then show ?thesis
      using Suc.prems handleKeyPress_match [of s cat w] d
      by (simp add: keysOf_def)
  next
    case False
    have k: "handleKeyPress cat [w ! ?j] s = ?s1"
      using Suc.prems False handleKeyPress_match [of s cat w] by simp
    have "typeKeys cat ?s1 (keysOf (drop (length (typedText ?s1)) w)) =
       moveToNextWord cat True (currentWordIndex ?s1) (currentRiddleIndex ?s1)
       (?s1\<lparr>typedText := typedText ?s1 @ drop (length (typedText ?s1)) w\<rparr>)"
      using Suc.prems False by (intro Suc.IH) auto
    then show ?thesis
      using k d by (simp add: keysOf_def)
  qed
qed

lemma step_KeyClick:
  "gameState s = PLAYING \<Longrightarrow> step cat s (KeyClick k) = timerEffect (handleKeyPress cat k s)"
  by (simp add: step_def dispatch_def viaKeyboard_def handleKeyClick_def)

lemma timerEffect_id: "timeLeft s \<noteq> 0 \<Longrightarrow> timerEffect s = s"
  by (simp add: timerEffect_def)

text \<open>
  Without another skip pending: a word of at least two characters is started while playing
  (clock running, empty buffer, no wrong key). Two keys follow, each different from the
  character of the word at the buffer's length, and then the delayed skip runs. The score
  is then the old score after \<open>max 0 (x - POINTS_PENALTY_WRONG_KEY)\<close> twice and
  \<open>max 0 (x - PENALTY_PER_WRONG_WORD)\<close> once. If the word was not the last of its set, the
  engine is at the next word with an empty buffer and a wrong-key count of 0; if it was the
  last one, the state is \<^verbatim>\<open>RIDDLE\<close> and the riddle modal is open.
\<close>

lemma two_wrong_keys_without_pending_skip:
  assumes "gameState s = PLAYING" and "0 < timeLeft s"
    and "riddleAt cat (currentRiddleIndex s) = Some rd"
    and "currentWord cat s = Some w" and "2 \<le> length w"
    and "typedText s = []" and "wrongKeyCount s = 0" and "pendingAdvances s = []"
    and "c1 \<noteq> w ! 0" and "c2 \<noteq> w ! 1"
  shows "run cat s [KeyClick [c1], KeyClick [c2], AdvanceTimer] =
     (let x = max 0 (max 0 (max 0 (score s - POINTS_PENALTY_WRONG_KEY)
                - POINTS_PENALTY_WRONG_KEY) - PENALTY_PER_WRONG_WORD)
      in if currentWordIndex s + 1 < length (words rd)
         then s\<lparr>score := x, currentWordIndex := currentWordIndex s + 1,
                typedText := [], wrongKeyCount := 0, pendingAdvances := []\<rparr>
         else s\<lparr>score := x, typedText := [c1, c2], wrongKeyCount := 2,
                showRiddleModal := True, gameState := RIDDLE, pendingAdvances := []\<rparr>)"
proof -
  let ?s1 = "s\<lparr>score := max 0 (score s - POINTS_PENALTY_WRONG_KEY),
               typedText := [c1], wrongKeyCount := 1\<rparr>"
  let ?s2 = "s\<lparr>score := max 0 (max 0 (score s - POINTS_PENALTY_WRONG_KEY)
                 - POINTS_PENALTY_WRONG_KEY),
               typedText := [c1, c2], wrongKeyCount := 2,
               pendingAdvances := [(currentWordIndex s, currentRiddleIndex s)]\<rparr>"
  have ne: "w \<noteq> []" and l1: "Suc 0 < length w"
    using assms(5) by auto
  have k1: "handleKeyPress cat [c1] s = ?s1"
    using assms ne handleKeyPress_mismatch [of s cat w c1]
    by (simp add: Let_def MAX_WRONG_KEYS_PER_WORD_def)
  have w1: "currentWord cat ?s1 = Some w"
    using assms(4) currentWord_same [of ?s1 s cat] by simp
  have k2: "handleKeyPress cat [c2] ?s1 = ?s2"
    using assms w1 l1 handleKeyPress_mismatch [of ?s1 cat w c2]
    by (simp add: Let_def MAX_WRONG_KEYS_PER_WORD_def)
  have e1: "step cat s (KeyClick [c1]) = ?s1"
    using assms(1,2) k1 by (simp add: step_KeyClick timerEffect_id)
  have e2: "step cat ?s1 (KeyClick [c2]) = ?s2"
    using assms(1,2) k2 by (simp add: step_KeyClick timerEffect_id)
  have e3: "step cat ?s2 AdvanceTimer =
     (let x = max 0 (max 0 (max 0 (score s - POINTS_PENALTY_WRONG_KEY)
                - POINTS_PENALTY_WRONG_KEY) - PENALTY_PER_WRONG_WORD)
      in if currentWordIndex s + 1 < length (words rd)
         then s\<lparr>score := x, currentWordIndex := currentWordIndex s + 1,
                typedText := [], wrongKeyCount := 0, pendingAdvances := []\<rparr>
         else s\<lparr>score := x, typedText := [c1, c2], wrongKeyCount := 2,
                showRiddleModal := True, gameState := RIDDLE, pendingAdvances := []\<rparr>)"
    using assms(1,2,3)
    by (simp add: step_def dispatch_def fireAdvance_def moveToNextWord_def Let_def
        timerEffect_def)
  show ?thesis
    using e1 e2 e3 by simp
qed

lemma run_start_riddleOfTwo:
  "run twoSetCatalog initialApp (Start 0 # map KeyDown (keysOf ''CATDOG'')) = riddleOfTwo"
  by (simp add: riddleOfTwo_def keysOf_def engine_defs catalog_defs)

lemma step_round2: "step twoSetCatalog riddleOfTwo (Answer 1 0) = round2"
  by (simp add: round2_def riddleOfTwo_def engine_defs catalog_defs)

lemma run_atMapStale:
  "run twoSetCatalog round2 [KeyClick ''X'', KeyClick ''Y'', KeyClick ''Z'', AdvanceTimer]
     = atMapStale"
  by (simp add: atMapStale_def round2_def engine_defs catalog_defs)

lemma atMapStale_word: "currentWord twoSetCatalog atMapStale = Some ''MAP''"
  by (simp add: atMapStale_def round2_def engine_defs catalog_defs)

lemma run_pastMap:
  "run twoSetCatalog atMapStale [KeyClick ''X'', KeyClick ''Y'', AdvanceTimer] = pastMap"
  by (simp add: pastMap_def atMapStale_def round2_def engine_defs catalog_defs)

lemma pastMap_noWord: "currentWord twoSetCatalog pastMap = None"
  by (simp add: pastMap_def round2_def engine_defs catalog_defs)

lemma step_pastMap:
  "step twoSetCatalog pastMap AdvanceTimer =
     pastMap\<lparr>score := 6, pendingAdvances := [], showRiddleModal := True, gameState := RIDDLE\<rparr>"
  by (simp add: pastMap_def round2_def engine_defs catalog_defs)

lemma run_round2: "run twoSetCatalog riddleOfTwo [Answer 1 0] = round2"
  by (simp only: run.simps step_round2)

text \<open>
  Claim C4, at a concrete input. On the two-set catalog the first round is completed
  (score 30 after the correct answer). On the first word of the second round three wrong
  keys are typed within the pause, which schedules two skips (the defect of claim C3); the
  first skip runs. The last word \<^verbatim>\<open>MAP\<close> of the set now starts in \<^verbatim>\<open>PLAYING\<close> with score
  18, an empty buffer and a wrong-key count of 0 (\<open>atMapStale\<close>), as the claim requires.
  Two wrong keys follow and the next timer callback runs. It is the older skip, created
  for the first word: the score is 9, but the word index becomes 2, past the last word, and
  the state stays \<^verbatim>\<open>PLAYING\<close> with no current word, where the claim promises \<^verbatim>\<open>RIDDLE\<close>.
  The skip of \<^verbatim>\<open>MAP\<close> itself then charges the wrong-word penalty once more (score 6)
  before it opens the riddle.
\<close>

theorem C4_stale_skip_spoils_abandonment:
  "run twoSetCatalog initialApp
     ((Start 0 # map KeyDown (keysOf ''CATDOG'')) @ [Answer 1 0] @
      [KeyClick ''X'', KeyClick ''Y'', KeyClick ''Z'', AdvanceTimer]) = atMapStale
   \<and> gameState atMapStale = PLAYING \<and> score atMapStale = 18
   \<and> typedText atMapStale = [] \<and> wrongKeyCount atMapStale = 0
   \<and> currentWord twoSetCatalog atMapStale = Some ''MAP''
   \<and> currentWordIndex atMapStale = 1 \<and> wordCount twoSetCatalog atMapStale = 2
   \<and> run twoSetCatalog atMapStale [KeyClick ''X'', KeyClick ''Y'', AdvanceTimer] = pastMap
   \<and> gameState pastMap = PLAYING \<and> currentWordIndex pastMap = 2
   \<and> currentWord twoSetCatalog pastMap = None \<and> score pastMap = 9
   \<and> step twoSetCatalog pastMap AdvanceTimer =
        pastMap\<lparr>score := 6, pendingAdvances := [], showRiddleModal := True,
                gameState := RIDDLE\<rparr>"
proof -
  have a: "run twoSetCatalog initialApp
     ((Start 0 # map KeyDown (keysOf ''CATDOG'')) @ [Answer 1 0] @
      [KeyClick ''X'', KeyClick ''Y'', KeyClick ''Z'', AdvanceTimer]) = atMapStale"
    by (simp only: run_append run_start_riddleOfTwo run_round2 run_atMapStale)
  have b: "wordCount twoSetCatalog atMapStale = 2"
    by (simp add: wordCount_def atMapStale_def round2_def engine_defs catalog_defs)
  have c: "gameState atMapStale = PLAYING" "score atMapStale = 18"
    "typedText atMapStale = []" "wrongKeyCount atMapStale = 0"
    "currentWordIndex atMapStale = 1"
    by (simp_all add: atMapStale_def round2_def initialApp_def)
  have d: "gameState pastMap = PLAYING" "currentWordIndex pastMap = 2" "score pastMap = 9"
    by (simp_all add: pastMap_def round2_def initialApp_def)
  from a b c d atMapStale_word run_pastMap pastMap_noWord step_pastMap
  show ?thesis by blast
qed

theorem C4_stale_skip_spoils_abandonment_witness:
  "currentWordIndex (run twoSetCatalog atMapStale
     [KeyClick ''X'', KeyClick ''Y'', AdvanceTimer]) = 2"
proof -
  from C4_stale_skip_spoils_abandonment
  have "run twoSetCatalog atMapStale [KeyClick ''X'', KeyClick ''Y'', AdvanceTimer] = pastMap"
    and "currentWordIndex pastMap = 2"
    by blast+
  then show ?thesis by (simp only:)
qed

lemma moveToNextWord_completed:
  "riddleAt cat (currentRiddleIndex s) = Some rd \<Longrightarrow>
   moveToNextWord cat True (currentWordIndex s) (currentRiddleIndex s) (s\<lparr>typedText := t\<rparr>) =
     (if currentWordIndex s + 1 < wordCount cat s
      then s\<lparr>score := score s + POINTS_PER_WORD,
             currentWordIndex := currentWordIndex s + 1,
             typedText := [], wrongKeyCount := 0\<rparr>
      else s\<lparr>typedText := t, score := score s + POINTS_PER_WORD,
             showRiddleModal := True, gameState := RIDDLE\<rparr>)"
  by (simp add: moveToNextWord_def Let_def wordCount_def currentRiddle_def)

text \<open>
  Claim C10. While playing on a non-empty word with a non-negative score, a key other than
  backspace completes the word if it equals the character of the word at the buffer's
  length and the buffer thereby reaches the word's length. Completion means: the score grows
  by \<open>POINTS_PER_WORD\<close> and the engine advances, that is, if another word of the set follows,
  the word index grows by 1, the buffer is emptied and the wrong-key count is 0, and
  otherwise the state is \<^verbatim>\<open>RIDDLE\<close> with the riddle modal open; nothing else changes.
  Every other key neither raises the score nor moves the word index nor leaves
  \<^verbatim>\<open>PLAYING\<close>. The characters already in the buffer are never inspected: on a fresh word
  of at least two characters, one wrong key followed by the keys for the characters at
  positions 1 to n-1 completes the word in the same way, with the score
  \<open>max 0 (score - POINTS_PENALTY_WRONG_KEY)\<close> plus \<open>POINTS_PER_WORD\<close>; on the last word the
  wrong-key count is still 1 and the buffer still holds the wrong character.
\<close>

theorem C10_completion_by_length:
  assumes "gameState s = PLAYING" and "currentWord cat s = Some w" and "w \<noteq> []"
    and "key \<noteq> []" and "key \<noteq> ''BACKSPACE''" and "0 \<le> score s"
  shows "(length (typedText s) < length w \<and> key = [w ! length (typedText s)]
          \<and> length (typedText s) + 1 = length w \<longrightarrow>
            handleKeyPress cat key s =
              moveToNextWord cat True (currentWordIndex s) (currentRiddleIndex s)
                (s\<lparr>typedText := typedText s @ key\<rparr>)
            \<and> score (handleKeyPress cat key s) = score s + POINTS_PER_WORD
            \<and> handleKeyPress cat key s =
                (if currentWordIndex s + 1 < wordCount cat s
                 then s\<lparr>score := score s + POINTS_PER_WORD,
                        currentWordIndex := currentWordIndex s + 1,
                        typedText := [], wrongKeyCount := 0\<rparr>
                 else s\<lparr>typedText := typedText s @ key,
                        score := score s + POINTS_PER_WORD,
                        showRiddleModal := True, gameState := RIDDLE\<rparr>))
       \<and> (\<not> (length (typedText s) < length w \<and> key = [w ! length (typedText s)]
             \<and> length (typedText s) + 1 = length w) \<longrightarrow>
            score (handleKeyPress cat key s) \<le> score s
            \<and> currentWordIndex (handleKeyPress cat key s) = currentWordIndex s
            \<and> gameState (handleKeyPress cat key s) = PLAYING)
       \<and> (typedText s = [] \<and> wrongKeyCount s = 0 \<and> 2 \<le> length w \<and> c \<noteq> w ! 0 \<longrightarrow>
            typeKeys cat s ([c] # keysOf (tl w)) =
              moveToNextWord cat True (currentWordIndex s) (currentRiddleIndex s)
                (s\<lparr>score := max 0 (score s - POINTS_PENALTY_WRONG_KEY),
                   wrongKeyCount := 1, typedText := c # tl w\<rparr>)
            \<and> score (typeKeys cat s ([c] # keysOf (tl w))) =
                max 0 (score s - POINTS_PENALTY_WRONG_KEY) + POINTS_PER_WORD
            \<and> typeKeys cat s ([c] # keysOf (tl w)) =
                (if currentWordIndex s + 1 < wordCount cat s
                 then s\<lparr>score := max 0 (score s - POINTS_PENALTY_WRONG_KEY) + POINTS_PER_WORD,
                        currentWordIndex := currentWordIndex s + 1,
                        typedText := [], wrongKeyCount := 0\<rparr>
                 else s\<lparr>score := max 0 (score s - POINTS_PENALTY_WRONG_KEY) + POINTS_PER_WORD,
                        wrongKeyCount := 1, typedText := c # tl w,
                        showRiddleModal := True, gameState := RIDDLE\<rparr>))"
proof (intro conjI impI)
  obtain rd where rd: "riddleAt cat (currentRiddleIndex s) = Some rd"
    using currentWord_SomeD [OF assms(2)] by blast
  {
    assume a: "length (typedText s) < length w \<and> key = [w ! length (typedText s)]
          \<and> length (typedText s) + 1 = length w"
    then show e: "handleKeyPress cat key s =
              moveToNextWord cat True (currentWordIndex s) (currentRiddleIndex s)
                (s\<lparr>typedText := typedText s @ key\<rparr>)"
      using assms(1,2) handleKeyPress_match [of s cat w] by simp
    show "score (handleKeyPress cat key s) = score s + POINTS_PER_WORD"
      unfolding e using rd by (simp add: score_moveToNextWord)
    show "handleKeyPress cat key s =
                (if currentWordIndex s + 1 < wordCount cat s
                 then s\<lparr>score := score s + POINTS_PER_WORD,
                        currentWordIndex := currentWordIndex s + 1,
                        typedText := [], wrongKeyCount := 0\<rparr>
                 else s\<lparr>typedText := typedText s @ key,
                        score := score s + POINTS_PER_WORD,
                        showRiddleModal := True, gameState := RIDDLE\<rparr>)"
      unfolding e by (rule moveToNextWord_completed [OF rd])
  }
  {
    assume a: "\<not> (length (typedText s) < length w \<and> key = [w ! length (typedText s)]
             \<and> length (typedText s) + 1 = length w)"
    show "score (handleKeyPress cat key s) \<le> score s"
      using a assms
      by (auto simp add: handleKeyPress_def noWord_def charAt_def Let_def config_defs)
    show "currentWordIndex (handleKeyPress cat key s) = currentWordIndex s"
      using a assms
      by (auto simp add: handleKeyPress_def noWord_def charAt_def Let_def)
    show "gameState (handleKeyPress cat key s) = PLAYING"
      using a assms
      by (auto simp add: handleKeyPress_def noWord_def charAt_def Let_def)
  }
  {
    assume a: "typedText s = [] \<and> wrongKeyCount s = 0 \<and> 2 \<le> length w \<and> c \<noteq> w ! 0"
    let ?s1 = "s\<lparr>score := max 0 (score s - POINTS_PENALTY_WRONG_KEY),
                 typedText := [c], wrongKeyCount := 1\<rparr>"
    have k: "handleKeyPress cat [c] s = ?s1"
      using a assms(1,2,3) handleKeyPress_mismatch [of s cat w c]
      by (simp add: Let_def MAX_WRONG_KEYS_PER_WORD_def)
    have w1: "currentWord cat ?s1 = Some w"
      using assms(2) currentWord_same [of ?s1 s cat] by simp
    have tl: "drop (length (typedText ?s1)) w = tl w"
      by (simp add: drop_Suc)
    have "typeKeys cat ?s1 (keysOf (drop (length (typedText ?s1)) w)) =
       moveToNextWord cat True (currentWordIndex ?s1) (currentRiddleIndex ?s1)
       (?s1\<lparr>typedText := typedText ?s1 @ drop (length (typedText ?s1)) w\<rparr>)"
      using a assms(1) w1 by (intro type_rest [where n = "length w - 1"]) auto
    then show r: "typeKeys cat s ([c] # keysOf (tl w)) =
              moveToNextWord cat True (currentWordIndex s) (currentRiddleIndex s)
                (s\<lparr>score := max 0 (score s - POINTS_PENALTY_WRONG_KEY),
                   wrongKeyCount := 1, typedText := c # tl w\<rparr>)"
      using k by (simp add: drop_Suc)
    show "score (typeKeys cat s ([c] # keysOf (tl w))) =
                max 0 (score s - POINTS_PENALTY_WRONG_KEY) + POINTS_PER_WORD"
      unfolding r using rd by (simp add: score_moveToNextWord)
    show "typeKeys cat s ([c] # keysOf (tl w)) =
                (if currentWordIndex s + 1 < wordCount cat s
                 then s\<lparr>score := max 0 (score s - POINTS_PENALTY_WRONG_KEY) + POINTS_PER_WORD,
                        currentWordIndex := currentWordIndex s + 1,
                        typedText := [], wrongKeyCount := 0\<rparr>
                 else s\<lparr>score := max 0 (score s - POINTS_PENALTY_WRONG_KEY) + POINTS_PER_WORD,
                        wrongKeyCount := 1, typedText := c # tl w,
                        showRiddleModal := True, gameState := RIDDLE\<rparr>)"
      unfolding r using rd
      by (simp add: moveToNextWord_def Let_def wordCount_def currentRiddle_def)
  }
qed

theorem C10_completion_by_length_witness:
  "typeKeys oneSetCatalog atDog (''X'' # keysOf (tl ''DOG'')) =
     atDog\<lparr>score := 7, wrongKeyCount := 1, typedText := ''XOG'',
           showRiddleModal := True, gameState := RIDDLE\<rparr>"
proof -
  have a: "gameState atDog = PLAYING" "currentWord oneSetCatalog atDog = Some ''DOG''"
    "0 \<le> score atDog"
    "typedText atDog = [] \<and> wrongKeyCount atDog = 0 \<and> 2 \<le> length ''DOG''
     \<and> CHR ''X'' \<noteq> ''DOG'' ! 0"
    by (simp_all add: atDog_def initialApp_def currentWord_def currentRiddle_def riddleAt_def
        oneSetCatalog_def catDog_def)
  have c: "''DOG'' \<noteq> []" "''D'' \<noteq> []" "''D'' \<noteq> ''BACKSPACE''"
    by simp_all
  note t = C10_completion_by_length [OF a(1) a(2) c(1) c(2) c(3) a(3), of "CHR ''X''"]
  from t a(4)
  have x: "typeKeys oneSetCatalog atDog (''X'' # keysOf (tl ''DOG'')) =
     (if currentWordIndex atDog + 1 < wordCount oneSetCatalog atDog
      then atDog\<lparr>score := max 0 (score atDog - POINTS_PENALTY_WRONG_KEY) + POINTS_PER_WORD,
             currentWordIndex := currentWordIndex atDog + 1,
             typedText := [], wrongKeyCount := 0\<rparr>
      else atDog\<lparr>score := max 0 (score atDog - POINTS_PENALTY_WRONG_KEY) + POINTS_PER_WORD,
             wrongKeyCount := 1, typedText := CHR ''X'' # tl ''DOG'',
             showRiddleModal := True, gameState := RIDDLE\<rparr>)"
    by blast
  have y: "(if currentWordIndex atDog + 1 < wordCount oneSetCatalog atDog
      then atDog\<lparr>score := max 0 (score atDog - POINTS_PENALTY_WRONG_KEY) + POINTS_PER_WORD,
             currentWordIndex := currentWordIndex atDog + 1,
             typedText := [], wrongKeyCount := 0\<rparr>
      else atDog\<lparr>score := max 0 (score atDog - POINTS_PENALTY_WRONG_KEY) + POINTS_PER_WORD,
             wrongKeyCount := 1, typedText := CHR ''X'' # tl ''DOG'',
             showRiddleModal := True, gameState := RIDDLE\<rparr>) =
     atDog\<lparr>score := 7, wrongKeyCount := 1, typedText := ''XOG'',
           showRiddleModal := True, gameState := RIDDLE\<rparr>"
    by (simp add: wordCount_def currentRiddle_def riddleAt_def atDog_def initialApp_def
        oneSetCatalog_def catDog_def config_defs)
  from x y show ?thesis by (simp only:)
qed

subsection \<open>The riddle history\<close>




text \<open>Handlers other than the start and the riddle answer leave the riddle history alone.\<close>

lemma used_moveToNextWord [simp]:
  "usedRiddleIndices (moveToNextWord cat b cwi cri s) = usedRiddleIndices s"
  "currentRiddleIndex (moveToNextWord cat b cwi cri s) = currentRiddleIndex s"
  by (simp_all add: moveToNextWord_def Let_def split: option.splits)

lemma used_handleKeyPress [simp]:
  "usedRiddleIndices (handleKeyPress cat k s) = usedRiddleIndices s"
  "currentRiddleIndex (handleKeyPress cat k s) = currentRiddleIndex s"
  by (simp_all add: handleKeyPress_def Let_def split: option.splits)

lemma used_viaKeyboard [simp]:
  "usedRiddleIndices (viaKeyboard cat k s) = usedRiddleIndices s"
  "currentRiddleIndex (viaKeyboard cat k s) = currentRiddleIndex s"
  by (simp_all add: viaKeyboard_def split: option.splits)

lemma used_fireAdvance [simp]:
  "usedRiddleIndices (fireAdvance cat s) = usedRiddleIndices s"
  "currentRiddleIndex (fireAdvance cat s) = currentRiddleIndex s"
  by (simp_all add: fireAdvance_def split: list.splits prod.splits)

lemma used_timerEffect [simp]:
  "usedRiddleIndices (timerEffect s) = usedRiddleIndices s"
  "currentRiddleIndex (timerEffect s) = currentRiddleIndex s"
  by (simp_all add: timerEffect_def endGame_def)















subsection \<open>Backspace\<close>

lemma currentWord_wordAt:
  "currentWord cat s = wordAt cat (currentRiddleIndex s) (currentWordIndex s)"
  by (simp add: currentWord_def currentRiddle_def wordAt_def)

lemma bufferOk_moveToNextWord:
  "bufferOk cat s \<Longrightarrow> bufferOk cat (moveToNextWord cat b cwi cri s)"
  by (simp add: bufferOk_def moveToNextWord_def Let_def currentWord_wordAt
      split: option.splits)

lemma handleKeyPress_cases:
  "handleKeyPress cat k s = s
   \<or> \<not> noWord (currentWord cat s) \<and>
     (handleKeyPress cat k s =
        s\<lparr>typedText := butlast (typedText s),
          wrongKeyCount := (if wrongKeyCount s > 0 then max 0 (wrongKeyCount s - 1)
                            else wrongKeyCount s)\<rparr>
      \<or> handleKeyPress cat k s = s\<lparr>typedText := typedText s @ k\<rparr>
      \<or> handleKeyPress cat k s =
          moveToNextWord cat True (currentWordIndex s) (currentRiddleIndex s)
            (s\<lparr>typedText := typedText s @ k\<rparr>)
      \<or> handleKeyPress cat k s =
          s\<lparr>score := max 0 (score s - POINTS_PENALTY_WRONG_KEY),
            typedText := typedText s @ k, wrongKeyCount := wrongKeyCount s + 1\<rparr>
      \<or> handleKeyPress cat k s =
          s\<lparr>score := max 0 (score s - POINTS_PENALTY_WRONG_KEY),
            typedText := typedText s @ k, wrongKeyCount := wrongKeyCount s + 1,
            pendingAdvances := pendingAdvances s @
              [(currentWordIndex s, currentRiddleIndex s)]\<rparr>)"
  by (simp add: handleKeyPress_def Let_def split: option.splits)

lemma bufferOk_handleKeyPress:
  assumes "bufferOk cat s"
  shows "bufferOk cat (handleKeyPress cat k s)"
proof -
  have w: "\<not> noWord (currentWord cat s) \<Longrightarrow> bufferOk cat (s\<lparr>typedText := typedText s @ k\<rparr>)"
    using assms by (simp add: bufferOk_def currentWord_wordAt)
  from handleKeyPress_cases [of cat k s] show ?thesis
  proof (elim disjE conjE)
    assume "handleKeyPress cat k s = s"
    then show ?thesis using assms by simp
  next
    assume "\<not> noWord (currentWord cat s)"
      and "handleKeyPress cat k s =
        s\<lparr>typedText := butlast (typedText s),
          wrongKeyCount := (if wrongKeyCount s > 0 then max 0 (wrongKeyCount s - 1)
                            else wrongKeyCount s)\<rparr>"
    then show ?thesis using assms by (simp add: bufferOk_def currentWord_wordAt)
  next
    assume "\<not> noWord (currentWord cat s)"
      and "handleKeyPress cat k s = s\<lparr>typedText := typedText s @ k\<rparr>"
    then show ?thesis using w by simp
  next
    assume "\<not> noWord (currentWord cat s)"
      and "handleKeyPress cat k s =
          moveToNextWord cat True (currentWordIndex s) (currentRiddleIndex s)
            (s\<lparr>typedText := typedText s @ k\<rparr>)"
    then show ?thesis using w by (simp add: bufferOk_moveToNextWord)
  next
    assume "\<not> noWord (currentWord cat s)"
      and "handleKeyPress cat k s =
          s\<lparr>score := max 0 (score s - POINTS_PENALTY_WRONG_KEY),
            typedText := typedText s @ k, wrongKeyCount := wrongKeyCount s + 1\<rparr>"
    then show ?thesis using assms by (simp add: bufferOk_def currentWord_wordAt)
  next
    assume "\<not> noWord (currentWord cat s)"
      and "handleKeyPress cat k s =
          s\<lparr>score := max 0 (score s - POINTS_PENALTY_WRONG_KEY),
            typedText := typedText s @ k, wrongKeyCount := wrongKeyCount s + 1,
            pendingAdvances := pendingAdvances s @
              [(currentWordIndex s, currentRiddleIndex s)]\<rparr>"
    then show ?thesis using assms by (simp add: bufferOk_def currentWord_wordAt)
  qed
qed

lemma bufferOk_fireAdvance:
  "bufferOk cat s \<Longrightarrow> bufferOk cat (fireAdvance cat s)"
proof (cases "pendingAdvances s")
  case Nil
  then show "bufferOk cat s \<Longrightarrow> ?thesis" by (simp add: fireAdvance_def)
next
  case (Cons p rest)
  assume "bufferOk cat s"
  then have "bufferOk cat (s\<lparr>pendingAdvances := rest\<rparr>)"
    by (simp add: bufferOk_def currentWord_wordAt)
  then show ?thesis
    using Cons by (simp add: fireAdvance_def bufferOk_moveToNextWord split: prod.splits)
qed

lemma bufferOk_handleRiddleAnswer:
  "bufferOk cat s \<Longrightarrow> bufferOk cat (handleRiddleAnswer cat r b s)"
  by (simp add: handleRiddleAnswer_def Let_def endGame_def bufferOk_def currentWord_wordAt)

lemma bufferOk_initializeGame: "bufferOk cat (initializeGame cat r s)"
  by (simp add: initializeGame_def Let_def bufferOk_def)

lemma bufferOk_timerEffect: "bufferOk cat s \<Longrightarrow> bufferOk cat (timerEffect s)"
  by (simp add: timerEffect_def endGame_def bufferOk_def currentWord_wordAt)

lemma bufferOk_dispatch: "bufferOk cat s \<Longrightarrow> bufferOk cat (dispatch cat s e)"
proof (cases e)
  case (KeyDown k)
  then show "bufferOk cat s \<Longrightarrow> ?thesis"
    by (simp add: dispatch_def viaKeyboard_def bufferOk_handleKeyPress split: option.splits)
next
  case (KeyClick k)
  then show "bufferOk cat s \<Longrightarrow> ?thesis"
    by (simp add: dispatch_def viaKeyboard_def bufferOk_handleKeyPress split: option.splits)
next
  case (Answer i r)
  then show "bufferOk cat s \<Longrightarrow> ?thesis"
    by (simp add: dispatch_def bufferOk_handleRiddleAnswer split: option.splits)
next
  case AdvanceTimer
  then show "bufferOk cat s \<Longrightarrow> ?thesis"
    by (simp add: dispatch_def bufferOk_fireAdvance)
next
  case (Start r)
  then show "bufferOk cat s \<Longrightarrow> ?thesis"
    by (simp add: dispatch_def bufferOk_initializeGame)
next
  case (SelectTime t)
  then show "bufferOk cat s \<Longrightarrow> ?thesis"
    by (simp add: dispatch_def bufferOk_def currentWord_wordAt)
next
  case Tick
  then show "bufferOk cat s \<Longrightarrow> ?thesis"
    by (simp add: dispatch_def bufferOk_def currentWord_wordAt)
next
  case BackToMenu
  then show "bufferOk cat s \<Longrightarrow> ?thesis"
    by (simp add: dispatch_def bufferOk_def currentWord_wordAt)
qed

lemma bufferOk_run: "bufferOk cat s \<Longrightarrow> bufferOk cat (run cat s es)"
  by (induction es arbitrary: s) (simp_all add: step_def bufferOk_dispatch bufferOk_timerEffect)

lemma backspace_routes:
  "gameState s = PLAYING \<Longrightarrow>
   dispatch cat s (KeyDown ''Backspace'') = handleKeyPress cat ''BACKSPACE'' s
   \<and> dispatch cat s (KeyClick ''BACKSPACE'') = handleKeyPress cat ''BACKSPACE'' s"
  by (simp add: dispatch_def viaKeyboard_def handleKeyDown_def handleKeyClick_def)

lemma run_oneWrong:
  "run oneSetCatalog (initializeGame oneSetCatalog 0 initialApp) [KeyClick ''X''] = oneWrong"
  by (simp add: oneWrong_def engine_defs catalog_defs)

text \<open>
  Claim C8. In every state of a session that is \<^verbatim>\<open>PLAYING\<close>: with a non-empty buffer, a
  backspace removes the last character of the buffer, lowers a positive wrong-key count by
  1, and changes nothing else; with an empty buffer it changes nothing. The wrong-key count
  is not negative before or after. The physical Backspace key and the on-screen DEL button
  both reach this handler.
\<close>

theorem C8_backspace:
  assumes "s = run cat (initializeGame cat r s0) evs" and "gameState s = PLAYING"
  shows "(typedText s \<noteq> [] \<longrightarrow>
            handleKeyPress cat ''BACKSPACE'' s =
              s\<lparr>typedText := butlast (typedText s),
                wrongKeyCount := (if 0 < wrongKeyCount s then wrongKeyCount s - 1
                                  else wrongKeyCount s)\<rparr>)
       \<and> (typedText s = [] \<longrightarrow> handleKeyPress cat ''BACKSPACE'' s = s)
       \<and> 0 \<le> wrongKeyCount s
       \<and> 0 \<le> wrongKeyCount (handleKeyPress cat ''BACKSPACE'' s)
       \<and> dispatch cat s (KeyDown ''Backspace'') = handleKeyPress cat ''BACKSPACE'' s
       \<and> dispatch cat s (KeyClick ''BACKSPACE'') = handleKeyPress cat ''BACKSPACE'' s"
proof -
  have ok: "bufferOk cat s"
    unfolding assms(1) by (intro bufferOk_run bufferOk_initializeGame)
  then have ok': "bufferOk cat (handleKeyPress cat ''BACKSPACE'' s)"
    by (rule bufferOk_handleKeyPress)
  have a: "typedText s \<noteq> [] \<longrightarrow>
            handleKeyPress cat ''BACKSPACE'' s =
              s\<lparr>typedText := butlast (typedText s),
                wrongKeyCount := (if 0 < wrongKeyCount s then wrongKeyCount s - 1
                                  else wrongKeyCount s)\<rparr>"
    using ok assms(2) by (auto simp add: handleKeyPress_def bufferOk_def)
  have b: "typedText s = [] \<longrightarrow> handleKeyPress cat ''BACKSPACE'' s = s"
    by (simp add: handleKeyPress_def)
  show ?thesis
    using a b ok ok' backspace_routes [OF assms(2), of cat]
    by (simp add: bufferOk_def)
qed

theorem C8_backspace_witness:
  "handleKeyPress oneSetCatalog ''BACKSPACE'' oneWrong =
     oneWrong\<lparr>typedText := [], wrongKeyCount := 0\<rparr>"
proof -
  have a: "oneWrong = run oneSetCatalog (initializeGame oneSetCatalog 0 initialApp)
          [KeyClick ''X'']"
    by (rule run_oneWrong [symmetric])
  have b: "gameState oneWrong = PLAYING"
    by (simp add: oneWrong_def)
  from C8_backspace [OF a b]
  have "typedText oneWrong \<noteq> [] \<longrightarrow>
          handleKeyPress oneSetCatalog ''BACKSPACE'' oneWrong =
            oneWrong\<lparr>typedText := butlast (typedText oneWrong),
              wrongKeyCount := (if 0 < wrongKeyCount oneWrong then wrongKeyCount oneWrong - 1
                                else wrongKeyCount oneWrong)\<rparr>"
    by blast
  then show ?thesis
    by (simp add: oneWrong_def)
qed

end

